theory Spec2Isabelle
  imports Main "HOL-Library.Word"
begin

section \<open>The waste-batch registry: contract \<open>IndustrialWasteExchange\<close>\<close>

text \<open>
  A shallow embedding of \<^verbatim>\<open>src/blockchain/IndustrialWasteExchange.sol\<close>
  (Solidity \<^verbatim>\<open>^0.8.20\<close>). Storage is an explicit record that every function
  takes and returns; a \<^verbatim>\<open>require\<close> that fails, the owner check, the
  re-entrancy check and the checked increment are error values. A function returns the
  outcome together with the storage as it stands where execution stopped; the rollback
  that a revert causes is applied one level up, in \<open>transact\<close>.
\<close>

subsection \<open>Data\<close>

type_synonym uint256 = "256 word"
type_synonym address = "160 word"

datatype WasteStatus = CREATED | COMMITTED | TRANSFERRED

record WasteBatch =
  batchId :: uint256
  category :: string
  quantity :: uint256
  currentOwner :: address
  committedBuyer :: address
  status :: WasteStatus
  createdAt :: uint256

text \<open>A storage slot that was never written reads as the all-zero struct; the first
  member of an enum is its zero.\<close>

definition zero_batch :: WasteBatch where
  "zero_batch = \<lparr>batchId = 0, category = [], quantity = 0, currentOwner = 0,
     committedBuyer = 0, status = CREATED, createdAt = 0\<rparr>"

datatype event =
    WasteBatchCreated uint256 address string uint256
  | PurchaseCommitted uint256 address
  | WasteBatchTransferred uint256 address address

text \<open>The ways a call reverts: a failed \<^verbatim>\<open>require\<close> with its reason
  string, the custom errors of the two inherited contracts, and the arithmetic panic
  (code 0x11) of checked arithmetic.\<close>

datatype error =
    Require string
  | OwnableUnauthorizedAccount address
  | ReentrancyGuardReentrantCall
  | Panic nat

text \<open>Contract storage: the owner (of \<^verbatim>\<open>Ownable\<close>), the in-flight flag (of
  \<^verbatim>\<open>ReentrancyGuard\<close>), the two state variables of the contract, and the
  log of emitted events.\<close>

record exchange =
  owner :: address
  entered :: bool
  nextBatchId :: uint256
  wasteBatches :: "uint256 \<Rightarrow> WasteBatch"
  events :: "event list"

type_synonym 'a outcome = "(error + 'a) \<times> exchange"

subsection \<open>Inherited modifiers\<close>

text \<open>Modelled from the spec: the access-control mixin \<^verbatim>\<open>Ownable\<close> is imported
  from a library and is not part of the sources. The spec describes it as a capability
  check that compares the caller's identity against a stored administrator field; the
  constructor stores the deployer there. The functions the mixin adds for handing the
  administration over are not modelled; they write nothing but that field.\<close>

definition onlyOwner :: "address \<Rightarrow> exchange \<Rightarrow> error + unit" where
  "onlyOwner msg_sender s =
     (if owner s \<noteq> msg_sender then Inl (OwnableUnauthorizedAccount msg_sender) else Inr ())"

text \<open>Modelled from the spec: the lock \<^verbatim>\<open>ReentrancyGuard\<close> is imported from a
  library and is not part of the sources. The spec describes it as an explicit per-call
  in-flight flag held for the duration of each state-changing operation, a nested call
  while it is held failing at once. \<open>nonReentrantBefore\<close> runs before the body of a
  guarded function and \<open>nonReentrantAfter\<close> after it.\<close>

definition nonReentrantBefore :: "exchange \<Rightarrow> unit outcome" where
  "nonReentrantBefore s =
     (if entered s then (Inl ReentrancyGuardReentrantCall, s)
      else (Inr (), s\<lparr>entered := True\<rparr>))"

definition nonReentrantAfter :: "exchange \<Rightarrow> exchange" where
  "nonReentrantAfter s = s\<lparr>entered := False\<rparr>"

definition nonReentrant :: "(exchange \<Rightarrow> unit outcome) \<Rightarrow> exchange \<Rightarrow> unit outcome" where
  "nonReentrant body s =
     (case nonReentrantBefore s of
        (Inl e, s0) \<Rightarrow> (Inl e, s0)
      | (Inr _, s1) \<Rightarrow>
          (case body s1 of
             (Inl e, s2) \<Rightarrow> (Inl e, s2)
           | (Inr _, s2) \<Rightarrow> (Inr (), nonReentrantAfter s2)))"

subsection \<open>The contract's functions\<close>

definition constructor :: "address \<Rightarrow> exchange" where
  "constructor msg_sender =
     \<lparr>owner = msg_sender, entered = False, nextBatchId = 1,
      wasteBatches = (\<lambda>_. zero_batch), events = []\<rparr>"

text \<open>The largest \<^verbatim>\<open>uint256\<close>; \<^verbatim>\<open>nextBatchId++\<close> is checked
  arithmetic and panics there instead of wrapping.\<close>

definition uint256_max :: uint256 where
  "uint256_max = - 1"

definition createWasteBatch ::
  "address \<Rightarrow> uint256 \<Rightarrow> string \<Rightarrow> uint256 \<Rightarrow> address \<Rightarrow> exchange \<Rightarrow> uint256 outcome" where
  "createWasteBatch msg_sender block_timestamp cat qty seller s =
     (case onlyOwner msg_sender s of
        Inl e \<Rightarrow> (Inl e, s)
      | Inr _ \<Rightarrow>
          if \<not> 0 < qty then (Inl (Require ''Quantity must be > 0''), s)
          else if \<not> seller \<noteq> 0 then (Inl (Require ''Invalid seller address''), s)
          else
            let bid = nextBatchId s;
                s1 = s\<lparr>wasteBatches := (wasteBatches s)(bid :=
                       \<lparr>batchId = bid, category = cat, quantity = qty,
                        currentOwner = seller, committedBuyer = 0,
                        status = CREATED, createdAt = block_timestamp\<rparr>)\<rparr>
            in if nextBatchId s1 = uint256_max then (Inl (Panic 17), s1)
               else
                 let s2 = s1\<lparr>nextBatchId := nextBatchId s1 + 1\<rparr>;
                     s3 = s2\<lparr>events := events s2 @ [WasteBatchCreated bid seller cat qty]\<rparr>
                 in (Inr bid, s3))"

text \<open>\<^verbatim>\<open>WasteBatch storage batch = wasteBatches[batchId]\<close> is a reference into
  storage: reads of \<open>batch\<close> read the mapping, writes to it update the mapping at
  \<open>bid\<close>, one field at a time.\<close>

definition commitToPurchase_body :: "address \<Rightarrow> uint256 \<Rightarrow> exchange \<Rightarrow> unit outcome" where
  "commitToPurchase_body msg_sender bid s =
     (if \<not> batchId (wasteBatches s bid) \<noteq> 0 then (Inl (Require ''Batch does not exist''), s)
      else if \<not> status (wasteBatches s bid) = CREATED then (Inl (Require ''Not available''), s)
      else if \<not> msg_sender \<noteq> currentOwner (wasteBatches s bid)
        then (Inl (Require ''Owner cannot buy''), s)
      else
        let s1 = s\<lparr>wasteBatches := (wasteBatches s)(bid :=
                   (wasteBatches s bid)\<lparr>committedBuyer := msg_sender\<rparr>)\<rparr>;
            s2 = s1\<lparr>wasteBatches := (wasteBatches s1)(bid :=
                   (wasteBatches s1 bid)\<lparr>status := COMMITTED\<rparr>)\<rparr>;
            s3 = s2\<lparr>events := events s2 @ [PurchaseCommitted bid msg_sender]\<rparr>
        in (Inr (), s3))"

definition commitToPurchase :: "address \<Rightarrow> uint256 \<Rightarrow> exchange \<Rightarrow> unit outcome" where
  "commitToPurchase msg_sender bid = nonReentrant (commitToPurchase_body msg_sender bid)"

definition transferWasteBatch_body :: "address \<Rightarrow> uint256 \<Rightarrow> exchange \<Rightarrow> unit outcome" where
  "transferWasteBatch_body msg_sender bid s =
     (if \<not> batchId (wasteBatches s bid) \<noteq> 0 then (Inl (Require ''Batch does not exist''), s)
      else if \<not> status (wasteBatches s bid) = COMMITTED
        then (Inl (Require ''Buyer not committed''), s)
      else if \<not> msg_sender = currentOwner (wasteBatches s bid)
        then (Inl (Require ''Not batch owner''), s)
      else
        let previousOwner = currentOwner (wasteBatches s bid);
            buyer = committedBuyer (wasteBatches s bid)
        in if \<not> buyer \<noteq> 0 then (Inl (Require ''No buyer committed''), s)
           else
             let s1 = s\<lparr>wasteBatches := (wasteBatches s)(bid :=
                        (wasteBatches s bid)\<lparr>currentOwner := buyer\<rparr>)\<rparr>;
                 s2 = s1\<lparr>wasteBatches := (wasteBatches s1)(bid :=
                        (wasteBatches s1 bid)\<lparr>status := TRANSFERRED\<rparr>)\<rparr>;
                 s3 = s2\<lparr>events := events s2 @ [WasteBatchTransferred bid previousOwner buyer]\<rparr>
             in (Inr (), s3))"

definition transferWasteBatch :: "address \<Rightarrow> uint256 \<Rightarrow> exchange \<Rightarrow> unit outcome" where
  "transferWasteBatch msg_sender bid = nonReentrant (transferWasteBatch_body msg_sender bid)"

text \<open>A \<^verbatim>\<open>view\<close> function: it reads storage and returns a copy of the struct.\<close>

definition getWasteBatch :: "uint256 \<Rightarrow> exchange \<Rightarrow> error + WasteBatch" where
  "getWasteBatch bid s =
     (if \<not> batchId (wasteBatches s bid) \<noteq> 0 then Inl (Require ''Batch not found'')
      else Inr (wasteBatches s bid))"

subsection \<open>Transactions\<close>

text \<open>An external call names the function and its arguments and carries the caller
  (\<^verbatim>\<open>msg.sender\<close>) and the block time. \<open>execute\<close> dispatches it; \<open>transact\<close>
  is the platform's rule for the storage a call leaves behind: that of a call that
  returned, and the storage before the call when it reverted.\<close>

datatype call =
    CreateWasteBatch string uint256 address
  | CommitToPurchase uint256
  | TransferWasteBatch uint256
  | GetWasteBatch uint256

record transaction =
  msg_sender :: address
  block_timestamp :: uint256
  called :: call

datatype returned = RetBatchId uint256 | RetUnit | RetBatch WasteBatch

definition execute :: "transaction \<Rightarrow> exchange \<Rightarrow> returned outcome" where
  "execute t s =
     (case called t of
        CreateWasteBatch cat qty seller \<Rightarrow>
          (case createWasteBatch (msg_sender t) (block_timestamp t) cat qty seller s of
             (Inl e, s') \<Rightarrow> (Inl e, s')
           | (Inr bid, s') \<Rightarrow> (Inr (RetBatchId bid), s'))
      | CommitToPurchase bid \<Rightarrow>
          (case commitToPurchase (msg_sender t) bid s of
             (Inl e, s') \<Rightarrow> (Inl e, s')
           | (Inr _, s') \<Rightarrow> (Inr RetUnit, s'))
      | TransferWasteBatch bid \<Rightarrow>
          (case transferWasteBatch (msg_sender t) bid s of
             (Inl e, s') \<Rightarrow> (Inl e, s')
           | (Inr _, s') \<Rightarrow> (Inr RetUnit, s'))
      | GetWasteBatch bid \<Rightarrow>
          (case getWasteBatch bid s of
             Inl e \<Rightarrow> (Inl e, s)
           | Inr b \<Rightarrow> (Inr (RetBatch b), s)))"

definition transact :: "transaction \<Rightarrow> exchange \<Rightarrow> exchange" where
  "transact t s = (case execute t s of (Inl _, _) \<Rightarrow> s | (Inr _, s') \<Rightarrow> s')"

text \<open>The registry after a sequence of calls, each one applied to the storage the
  previous one left.\<close>

definition run :: "transaction list \<Rightarrow> exchange \<Rightarrow> exchange" where
  "run ts s = foldl (\<lambda>s t. transact t s) s ts"

text \<open>The batch ids handed out along a sequence of calls, oldest first.\<close>

fun assigned_ids :: "transaction list \<Rightarrow> exchange \<Rightarrow> uint256 list" where
  "assigned_ids [] s = []"
| "assigned_ids (t # ts) s =
     (case execute t s of
        (Inr (RetBatchId bid), _) \<Rightarrow> bid # assigned_ids ts (transact t s)
      | _ \<Rightarrow> assigned_ids ts (transact t s))"

subsection \<open>Notions the properties are stated with\<close>

text \<open>An id is allocated when it lies between 1 and the counter.\<close>

definition allocated :: "exchange \<Rightarrow> uint256 \<Rightarrow> bool" where
  "allocated s bid \<longleftrightarrow> 1 \<le> bid \<and> bid < nextBatchId s"

text \<open>Storage is consistent when no guarded call is in flight, the counter is at least 1,
  every allocated slot carries its own id and every other slot was never written.\<close>

definition consistent :: "exchange \<Rightarrow> bool" where
  "consistent s \<longleftrightarrow>
     \<not> entered s \<and> 1 \<le> nextBatchId s \<and>
     (\<forall>bid. if allocated s bid then batchId (wasteBatches s bid) = bid
            else wasteBatches s bid = zero_batch)"


text \<open>The call \<open>t\<close> is a creation that succeeds on \<open>s\<close>.\<close>

definition creates :: "transaction \<Rightarrow> exchange \<Rightarrow> bool" where
  "creates t s =
     (case called t of
        CreateWasteBatch cat qty seller \<Rightarrow>
          owner s = msg_sender t \<and> qty \<noteq> 0 \<and> seller \<noteq> 0 \<and> nextBatchId s \<noteq> uint256_max
      | _ \<Rightarrow> False)"

text \<open>One step of the life cycle, or none.\<close>

definition forward :: "WasteStatus \<Rightarrow> WasteStatus \<Rightarrow> bool" where
  "forward old new \<longleftrightarrow>
     new = old \<or> (old = CREATED \<and> new = COMMITTED) \<or> (old = COMMITTED \<and> new = TRANSFERRED)"


text \<open>The highest id of a list of ids, 0 for the empty list.\<close>

definition highest_assigned :: "uint256 list \<Rightarrow> uint256" where
  "highest_assigned ids = fold max ids 0"

text \<open>A call by \<open>a\<close> (at block time 0), for writing concrete scenarios.\<close>

definition call_by :: "address \<Rightarrow> call \<Rightarrow> transaction" where
  "call_by a c = \<lparr>msg_sender = a, block_timestamp = 0, called = c\<rparr>"

section \<open>Basic facts about the functions\<close>

subsection \<open>Checked increment\<close>

lemma uint256_inc_unat: "n \<noteq> uint256_max \<Longrightarrow> unat (n + 1) = Suc (unat n)"
  unfolding uint256_max_def
  by (metis add.commute unatSuc max_word_wrap)

lemma uint256_less_inc: "n \<noteq> uint256_max \<Longrightarrow> (i < n + 1) = (i < n \<or> i = n)"
  by (auto simp: word_less_nat_alt uint256_inc_unat word_unat_eq_iff)

lemma uint256_inc_neq_0: "n \<noteq> uint256_max \<Longrightarrow> n + 1 \<noteq> 0"
  unfolding uint256_max_def
  using max_word_wrap by blast

subsection \<open>What each function returns\<close>

lemma createWasteBatch_ok:
  "owner s = a \<Longrightarrow> qty \<noteq> 0 \<Longrightarrow> seller \<noteq> 0 \<Longrightarrow> nextBatchId s \<noteq> uint256_max \<Longrightarrow>
   createWasteBatch a now cat qty seller s =
     (Inr (nextBatchId s),
      s\<lparr>wasteBatches := (wasteBatches s)(nextBatchId s :=
           \<lparr>batchId = nextBatchId s, category = cat, quantity = qty,
            currentOwner = seller, committedBuyer = 0,
            status = CREATED, createdAt = now\<rparr>),
        nextBatchId := nextBatchId s + 1,
        events := events s @ [WasteBatchCreated (nextBatchId s) seller cat qty]\<rparr>)"
  by (simp add: createWasteBatch_def onlyOwner_def Let_def word_gt_0)

lemma createWasteBatch_Inr:
  "createWasteBatch a now cat qty seller s = (Inr bid, s') \<Longrightarrow>
   owner s = a \<and> qty \<noteq> 0 \<and> seller \<noteq> 0 \<and> nextBatchId s \<noteq> uint256_max \<and> bid = nextBatchId s"
  by (auto simp: createWasteBatch_def onlyOwner_def Let_def word_gt_0 split: if_splits)

lemma nonReentrant_entered:
  "entered s \<Longrightarrow> nonReentrant body s = (Inl ReentrancyGuardReentrantCall, s)"
  by (simp add: nonReentrant_def nonReentrantBefore_def)

lemma commitToPurchase_free:
  "\<not> entered s \<Longrightarrow> commitToPurchase a bid s =
     (if batchId (wasteBatches s bid) = 0
        then (Inl (Require ''Batch does not exist''), s\<lparr>entered := True\<rparr>)
      else if status (wasteBatches s bid) \<noteq> CREATED
        then (Inl (Require ''Not available''), s\<lparr>entered := True\<rparr>)
      else if a = currentOwner (wasteBatches s bid)
        then (Inl (Require ''Owner cannot buy''), s\<lparr>entered := True\<rparr>)
      else (Inr (), s\<lparr>wasteBatches := (wasteBatches s)(bid :=
                      (wasteBatches s bid)\<lparr>committedBuyer := a, status := COMMITTED\<rparr>),
                    events := events s @ [PurchaseCommitted bid a]\<rparr>))"
  by (simp add: commitToPurchase_def nonReentrant_def nonReentrantBefore_def
      nonReentrantAfter_def commitToPurchase_body_def Let_def)

lemma transferWasteBatch_free:
  "\<not> entered s \<Longrightarrow> transferWasteBatch a bid s =
     (if batchId (wasteBatches s bid) = 0
        then (Inl (Require ''Batch does not exist''), s\<lparr>entered := True\<rparr>)
      else if status (wasteBatches s bid) \<noteq> COMMITTED
        then (Inl (Require ''Buyer not committed''), s\<lparr>entered := True\<rparr>)
      else if a \<noteq> currentOwner (wasteBatches s bid)
        then (Inl (Require ''Not batch owner''), s\<lparr>entered := True\<rparr>)
      else if committedBuyer (wasteBatches s bid) = 0
        then (Inl (Require ''No buyer committed''), s\<lparr>entered := True\<rparr>)
      else (Inr (), s\<lparr>wasteBatches := (wasteBatches s)(bid :=
                      (wasteBatches s bid)\<lparr>currentOwner := committedBuyer (wasteBatches s bid),
                         status := TRANSFERRED\<rparr>),
                    events := events s @ [WasteBatchTransferred bid
                      (currentOwner (wasteBatches s bid)) (committedBuyer (wasteBatches s bid))]\<rparr>))"
  by (simp add: transferWasteBatch_def nonReentrant_def nonReentrantBefore_def
      nonReentrantAfter_def transferWasteBatch_body_def Let_def)

subsection \<open>Sequences of calls\<close>

lemma run_Nil: "run [] s = s"
  by (simp add: run_def)

lemma run_snoc: "run (ts @ [t]) s = transact t (run ts s)"
  by (simp add: run_def)

lemma run_Cons: "run (t # ts) s = run ts (transact t s)"
  by (simp add: run_def)

lemma transact_create:
  "called t = CreateWasteBatch cat qty seller \<Longrightarrow>
   transact t s =
     (if owner s = msg_sender t \<and> qty \<noteq> 0 \<and> seller \<noteq> 0 \<and> nextBatchId s \<noteq> uint256_max
      then s\<lparr>wasteBatches := (wasteBatches s)(nextBatchId s :=
             \<lparr>batchId = nextBatchId s, category = cat, quantity = qty,
              currentOwner = seller, committedBuyer = 0,
              status = CREATED, createdAt = block_timestamp t\<rparr>),
             nextBatchId := nextBatchId s + 1,
             events := events s @ [WasteBatchCreated (nextBatchId s) seller cat qty]\<rparr>
      else s)"
  by (auto simp: transact_def execute_def createWasteBatch_ok
      split: prod.splits sum.splits dest: createWasteBatch_Inr)

lemma transact_commit:
  "called t = CommitToPurchase bid \<Longrightarrow> \<not> entered s \<Longrightarrow>
   transact t s =
     (if batchId (wasteBatches s bid) \<noteq> 0 \<and> status (wasteBatches s bid) = CREATED
         \<and> msg_sender t \<noteq> currentOwner (wasteBatches s bid)
      then s\<lparr>wasteBatches := (wasteBatches s)(bid :=
                (wasteBatches s bid)\<lparr>committedBuyer := msg_sender t, status := COMMITTED\<rparr>),
             events := events s @ [PurchaseCommitted bid (msg_sender t)]\<rparr>
      else s)"
  by (simp add: transact_def execute_def commitToPurchase_free)

lemma transact_transfer:
  "called t = TransferWasteBatch bid \<Longrightarrow> \<not> entered s \<Longrightarrow>
   transact t s =
     (if batchId (wasteBatches s bid) \<noteq> 0 \<and> status (wasteBatches s bid) = COMMITTED
         \<and> msg_sender t = currentOwner (wasteBatches s bid)
         \<and> committedBuyer (wasteBatches s bid) \<noteq> 0
      then s\<lparr>wasteBatches := (wasteBatches s)(bid :=
                (wasteBatches s bid)\<lparr>currentOwner := committedBuyer (wasteBatches s bid),
                   status := TRANSFERRED\<rparr>),
             events := events s @ [WasteBatchTransferred bid
                (currentOwner (wasteBatches s bid)) (committedBuyer (wasteBatches s bid))]\<rparr>
      else s)"
  by (simp add: transact_def execute_def transferWasteBatch_free)

lemma transact_get: "called t = GetWasteBatch bid \<Longrightarrow> transact t s = s"
  by (simp add: transact_def execute_def split: sum.splits)

subsection \<open>Consistency of the storage is kept by every call\<close>

lemma word_1_le_iff: "(1 \<le> (x::uint256)) = (x \<noteq> 0)"
  by (simp add: word_le_nat_alt unat_gt_0 Suc_le_eq)

lemma consistent_constructor: "consistent (constructor d)"
  by (simp add: consistent_def constructor_def allocated_def)

lemma consistent_exists:
  "consistent s \<Longrightarrow> (batchId (wasteBatches s bid) \<noteq> 0) = allocated s bid"
  unfolding consistent_def
  by (erule conjE, erule conjE, erule_tac x = bid in allE)
     (auto simp: allocated_def zero_batch_def word_1_le_iff split: if_splits)

lemma consistent_update:
  assumes c: "consistent s"
    and ex: "batchId (wasteBatches s bid) \<noteq> 0"
    and same: "batchId b = batchId (wasteBatches s bid)"
  shows "consistent (s\<lparr>wasteBatches := (wasteBatches s)(bid := b), events := evs\<rparr>)"
proof -
  from c ex have a: "allocated s bid" by (simp add: consistent_exists)
  from c have all: "\<And>i. if allocated s i then batchId (wasteBatches s i) = i
            else wasteBatches s i = zero_batch"
    by (simp add: consistent_def)
  from all [of bid] a same have "batchId b = bid" by simp
  with c a all show ?thesis
    by (simp add: consistent_def allocated_def)
qed

lemma consistent_transact: "consistent s \<Longrightarrow> consistent (transact t s)"
proof (cases "called t")
  case (CreateWasteBatch cat qty seller)
  assume c: "consistent s"
  then show ?thesis using CreateWasteBatch
    by (auto simp: transact_create consistent_def allocated_def uint256_less_inc
        word_1_le_iff uint256_inc_neq_0 split: if_splits)
next
  case (CommitToPurchase bid)
  assume c: "consistent s"
  then have "\<not> entered s" by (simp add: consistent_def)
  with c CommitToPurchase show ?thesis
    by (simp add: transact_commit consistent_update)
next
  case (TransferWasteBatch bid)
  assume c: "consistent s"
  then have "\<not> entered s" by (simp add: consistent_def)
  with c TransferWasteBatch show ?thesis
    by (simp add: transact_transfer consistent_update)
next
  case (GetWasteBatch bid)
  assume "consistent s"
  then show ?thesis using GetWasteBatch by (simp add: transact_get)
qed

lemma consistent_run: "consistent s \<Longrightarrow> consistent (run ts s)"
  by (induction ts rule: rev_induct) (simp_all add: run_Nil run_snoc consistent_transact)

lemma consistent_reachable: "consistent (run ts (constructor d))"
  by (rule consistent_run [OF consistent_constructor])

lemma reachable_not_entered: "\<not> entered (run ts (constructor d))"
  using consistent_reachable [of ts d] by (simp add: consistent_def)

subsection \<open>The ids handed out\<close>

lemma assigned_ids_append:
  "assigned_ids (ts @ us) s = assigned_ids ts s @ assigned_ids us (run ts s)"
  by (induction ts arbitrary: s) (simp_all add: run_Nil run_Cons split: prod.splits sum.splits returned.splits)

lemma assigned_ids_single:
  "assigned_ids [t] s = (if creates t s then [nextBatchId s] else [])"
proof (cases "called t")
  case (CreateWasteBatch cat qty seller)
  show ?thesis
  proof (cases "creates t s")
    case True
    with CreateWasteBatch show ?thesis
      by (simp add: creates_def execute_def createWasteBatch_ok)
  next
    case False
    obtain r s' where r: "createWasteBatch (msg_sender t) (block_timestamp t) cat qty seller s = (r, s')"
      by (cases "createWasteBatch (msg_sender t) (block_timestamp t) cat qty seller s")
    with False CreateWasteBatch have "\<exists>e. r = Inl e"
      by (cases r) (auto simp: creates_def dest: createWasteBatch_Inr)
    with r False CreateWasteBatch show ?thesis
      by (auto simp: execute_def)
  qed
next
  case (CommitToPurchase bid)
  then show ?thesis
    by (simp add: creates_def execute_def split: prod.splits sum.splits)
next
  case (TransferWasteBatch bid)
  then show ?thesis
    by (simp add: creates_def execute_def split: prod.splits sum.splits)
next
  case (GetWasteBatch bid)
  then show ?thesis
    by (simp add: creates_def execute_def split: prod.splits sum.splits)
qed

lemma assigned_ids_snoc:
  "assigned_ids (ts @ [t]) s =
     assigned_ids ts s @ (if creates t (run ts s) then [nextBatchId (run ts s)] else [])"
  using assigned_ids_single [of t "run ts s"] by (simp only: assigned_ids_append)

lemma transact_entered:
  "entered s \<Longrightarrow> called t = CommitToPurchase bid \<or> called t = TransferWasteBatch bid \<Longrightarrow>
   transact t s = s"
  by (auto simp: transact_def execute_def commitToPurchase_def transferWasteBatch_def
      nonReentrant_entered)

lemma nextBatchId_transact:
  "nextBatchId (transact t s) = (if creates t s then nextBatchId s + 1 else nextBatchId s)"
proof (cases "called t")
  case (CreateWasteBatch cat qty seller)
  then show ?thesis by (simp add: transact_create creates_def)
next
  case (CommitToPurchase bid)
  then show ?thesis
    by (cases "entered s") (simp_all add: transact_commit creates_def transact_entered)
next
  case (TransferWasteBatch bid)
  then show ?thesis
    by (cases "entered s") (simp_all add: transact_transfer creates_def transact_entered)
next
  case (GetWasteBatch bid)
  then show ?thesis by (simp add: transact_get creates_def)
qed

lemma unat_nextBatchId_pos: "0 < unat (nextBatchId (run ts (constructor d)))"
  using consistent_reachable [of ts d]
  by (simp add: consistent_def word_1_le_iff unat_gt_0)

lemma assigned_ids_reachable:
  "assigned_ids ts (constructor d) =
     map of_nat [1..<unat (nextBatchId (run ts (constructor d)))]"
proof (induction ts rule: rev_induct)
  case Nil
  show ?case by (simp add: run_Nil constructor_def)
next
  case (snoc t ts)
  let ?s = "run ts (constructor d)"
  show ?case
  proof (cases "creates t ?s")
    case False
    with snoc show ?thesis
      by (simp add: assigned_ids_snoc run_snoc nextBatchId_transact)
  next
    case True
    then have "nextBatchId ?s \<noteq> uint256_max"
      by (auto simp: creates_def split: call.splits)
    then have "unat (nextBatchId ?s + 1) = Suc (unat (nextBatchId ?s))"
      by (rule uint256_inc_unat)
    with True snoc unat_nextBatchId_pos [of ts d] show ?thesis
      by (simp add: assigned_ids_snoc run_snoc nextBatchId_transact)
  qed
qed

lemma highest_assigned_snoc: "highest_assigned (ids @ [i]) = max i (highest_assigned ids)"
  by (simp add: highest_assigned_def)

lemma highest_assigned_upto:
  "k < 2 ^ 256 \<Longrightarrow> highest_assigned (map of_nat [1..<Suc k]) = (of_nat k :: uint256)"
proof (induction k)
  case 0
  show ?case by (simp add: highest_assigned_def)
next
  case (Suc k)
  then have "highest_assigned (map of_nat [1..<Suc k]) = (of_nat k :: uint256)" by simp
  moreover have "(of_nat k :: uint256) \<le> of_nat (Suc k)"
    using Suc.prems by (simp add: word_le_nat_alt unat_of_nat del: of_nat_Suc)
  ultimately show ?case
    by (simp add: highest_assigned_snoc max_def del: of_nat_Suc)
qed

lemma unat_lt_uint256: "unat (x::uint256) < 2 ^ 256"
  using unsigned_less [of x, where 'a = nat] by simp

lemma highest_assigned_reachable:
  "unat (nextBatchId (run ts (constructor d))) =
     Suc (unat (highest_assigned (assigned_ids ts (constructor d))))"
proof -
  let ?n = "nextBatchId (run ts (constructor d))"
  obtain k where k: "unat ?n = Suc k"
    using unat_nextBatchId_pos [of ts d] by (cases "unat ?n") auto
  have lt: "k < 2 ^ 256" using unat_lt_uint256 [of ?n] k by simp
  have "highest_assigned (assigned_ids ts (constructor d)) = (of_nat k :: uint256)"
    using highest_assigned_upto [OF lt] k by (simp only: assigned_ids_reachable)
  with lt k show ?thesis by (simp add: unat_of_nat)
qed

lemma set_ids_upto:
  "set (map of_nat [1..<unat (n::uint256)]) = {bid::uint256. 1 \<le> bid \<and> bid < n}"
proof (intro set_eqI iffI)
  fix bid :: uint256
  assume "bid \<in> set (map of_nat [1..<unat n])"
  then obtain k where k: "1 \<le> k" "k < unat n" "bid = of_nat k" by auto
  from k(2) unat_lt_uint256 [of n] have "k < 2 ^ 256" by simp
  then have "unat bid = k" using k(3) by (simp add: unat_of_nat)
  with k show "bid \<in> {bid. 1 \<le> bid \<and> bid < n}"
    by (simp add: word_le_nat_alt word_less_nat_alt)
next
  fix bid :: uint256
  assume "bid \<in> {bid. 1 \<le> bid \<and> bid < n}"
  then have "1 \<le> unat bid" "unat bid < unat n"
    by (simp_all add: word_le_nat_alt word_less_nat_alt)
  then have "unat bid \<in> {1..<unat n}" by simp
  then have "(of_nat (unat bid) :: uint256) \<in> of_nat ` {1..<unat n}" by (rule imageI)
  then show "bid \<in> set (map of_nat [1..<unat n])" by simp
qed

subsection \<open>Buyers and the life cycle\<close>



lemma forward_transact:
  assumes c: "consistent s"
  shows "forward (status (wasteBatches s bid)) (status (wasteBatches (transact t s) bid))"
proof (cases "called t")
  case (CreateWasteBatch cat qty seller)
  from c have "\<not> allocated s (nextBatchId s)" by (simp add: allocated_def)
  with c have "wasteBatches s (nextBatchId s) = zero_batch"
    unfolding consistent_def by (metis (full_types))
  then show ?thesis using CreateWasteBatch
    by (auto simp: transact_create forward_def zero_batch_def)
next
  case (CommitToPurchase i)
  from c have "\<not> entered s" by (simp add: consistent_def)
  then show ?thesis using CommitToPurchase
    by (simp add: transact_commit forward_def)
next
  case (TransferWasteBatch i)
  from c have "\<not> entered s" by (simp add: consistent_def)
  then show ?thesis using TransferWasteBatch
    by (simp add: transact_transfer forward_def)
next
  case (GetWasteBatch i)
  then show ?thesis by (simp add: transact_get forward_def)
qed

subsection \<open>A batch that has left \<open>CREATED\<close> keeps its buyer\<close>

lemma allocated_transact: "allocated s bid \<Longrightarrow> allocated (transact t s) bid"
  by (auto simp: allocated_def nextBatchId_transact creates_def uint256_less_inc
      split: call.splits)

lemma settled_transact:
  assumes c: "consistent s"
    and ex: "batchId (wasteBatches s bid) \<noteq> 0"
    and st: "status (wasteBatches s bid) \<noteq> CREATED"
  shows "batchId (wasteBatches (transact t s) bid) \<noteq> 0
     \<and> status (wasteBatches (transact t s) bid) \<noteq> CREATED
     \<and> committedBuyer (wasteBatches (transact t s) bid) = committedBuyer (wasteBatches s bid)
     \<and> (status (wasteBatches s bid) = TRANSFERRED
          \<longrightarrow> status (wasteBatches (transact t s) bid) = TRANSFERRED)"
proof -
  from c ex have "allocated s bid" by (simp add: consistent_exists)
  then have "allocated (transact t s) bid" by (rule allocated_transact)
  then have 1: "batchId (wasteBatches (transact t s) bid) \<noteq> 0"
    using consistent_exists [OF consistent_transact [OF c]] by simp
  have fw: "forward (status (wasteBatches s bid)) (status (wasteBatches (transact t s) bid))"
    by (rule forward_transact [OF c])
  with st have 2: "status (wasteBatches (transact t s) bid) \<noteq> CREATED"
    by (auto simp: forward_def)
  from fw have 4: "status (wasteBatches s bid) = TRANSFERRED
          \<longrightarrow> status (wasteBatches (transact t s) bid) = TRANSFERRED"
    by (auto simp: forward_def)
  have 3: "committedBuyer (wasteBatches (transact t s) bid) = committedBuyer (wasteBatches s bid)"
  proof (cases "called t")
    case (CreateWasteBatch cat qty seller)
    from \<open>allocated s bid\<close> have "bid \<noteq> nextBatchId s" by (auto simp: allocated_def)
    then show ?thesis using CreateWasteBatch by (simp add: transact_create)
  next
    case (CommitToPurchase i)
    from c have "\<not> entered s" by (simp add: consistent_def)
    then show ?thesis using CommitToPurchase st by (auto simp: transact_commit)
  next
    case (TransferWasteBatch i)
    from c have "\<not> entered s" by (simp add: consistent_def)
    then show ?thesis using TransferWasteBatch by (simp add: transact_transfer)
  next
    case (GetWasteBatch i)
    then show ?thesis by (simp add: transact_get)
  qed
  from 1 2 3 4 show ?thesis by simp
qed

lemma settled_run:
  assumes c: "consistent s"
    and ex: "batchId (wasteBatches s bid) \<noteq> 0"
    and st: "status (wasteBatches s bid) \<noteq> CREATED"
  shows "batchId (wasteBatches (run us s) bid) \<noteq> 0
     \<and> status (wasteBatches (run us s) bid) \<noteq> CREATED
     \<and> committedBuyer (wasteBatches (run us s) bid) = committedBuyer (wasteBatches s bid)
     \<and> (status (wasteBatches s bid) = TRANSFERRED
          \<longrightarrow> status (wasteBatches (run us s) bid) = TRANSFERRED)"
proof (induction us rule: rev_induct)
  case Nil
  from ex st show ?case by (simp add: run_Nil)
next
  case (snoc t us)
  then show ?case
    using settled_transact [OF consistent_run [OF c], of us bid t]
    by (simp add: run_snoc)
qed


subsection \<open>A successful guarded call is the transaction it belongs to\<close>


lemma commit_is_transact:
  "fst (commitToPurchase a bid s) = Inr () \<Longrightarrow>
   snd (commitToPurchase a bid s) =
     transact \<lparr>msg_sender = a, block_timestamp = now, called = CommitToPurchase bid\<rparr> s"
  by (cases "commitToPurchase a bid s") (simp add: transact_def execute_def)

subsection \<open>Where a failing call stops\<close>

lemma execute_failure_point:
  assumes "fst (execute t s) = Inl e" and "e \<noteq> Panic 17"
  shows "wasteBatches (snd (execute t s)) = wasteBatches s
     \<and> nextBatchId (snd (execute t s)) = nextBatchId s
     \<and> events (snd (execute t s)) = events s
     \<and> owner (snd (execute t s)) = owner s"
proof (cases "called t")
  case (CreateWasteBatch cat qty seller)
  with assms show ?thesis
    by (auto simp: execute_def createWasteBatch_def onlyOwner_def Let_def split: if_splits)
next
  case (CommitToPurchase bid)
  show ?thesis
  proof (cases "entered s")
    case True
    with CommitToPurchase show ?thesis
      by (simp add: execute_def commitToPurchase_def nonReentrant_entered)
  next
    case False
    with CommitToPurchase assms show ?thesis
      by (auto simp: execute_def commitToPurchase_free split: if_splits)
  qed
next
  case (TransferWasteBatch bid)
  show ?thesis
  proof (cases "entered s")
    case True
    with TransferWasteBatch show ?thesis
      by (simp add: execute_def transferWasteBatch_def nonReentrant_entered)
  next
    case False
    with TransferWasteBatch assms show ?thesis
      by (auto simp: execute_def transferWasteBatch_free split: if_splits)
  qed
next
  case (GetWasteBatch bid)
  then show ?thesis by (simp add: execute_def split: sum.splits)
qed

subsection \<open>Running the counter to its end\<close>

lemma owner_transact: "owner (transact t s) = owner s"
proof (cases "called t")
  case (CreateWasteBatch cat qty seller)
  then show ?thesis by (simp add: transact_create)
next
  case (CommitToPurchase bid)
  then show ?thesis
    by (cases "entered s") (simp_all add: transact_commit transact_entered)
next
  case (TransferWasteBatch bid)
  then show ?thesis
    by (cases "entered s") (simp_all add: transact_transfer transact_entered)
next
  case (GetWasteBatch bid)
  then show ?thesis by (simp add: transact_get)
qed




subsection \<open>A concrete scenario\<close>

text \<open>The administrator 1 creates a batch for the seller 2, then \<open>b\<close> commits to it.\<close>

lemma scenario_commit:
  "run [call_by 1 (CreateWasteBatch ''fly_ash'' 100 2), call_by b (CommitToPurchase 1)]
       (constructor 1) =
   (if b = 2 then
     \<lparr>owner = 1, entered = False, nextBatchId = 2,
      wasteBatches = (\<lambda>_. zero_batch)(1 :=
        \<lparr>batchId = 1, category = ''fly_ash'', quantity = 100, currentOwner = 2,
         committedBuyer = 0, status = CREATED, createdAt = 0\<rparr>),
      events = [WasteBatchCreated 1 2 ''fly_ash'' 100]\<rparr>
    else
     \<lparr>owner = 1, entered = False, nextBatchId = 2,
      wasteBatches = (\<lambda>_. zero_batch)(1 :=
        \<lparr>batchId = 1, category = ''fly_ash'', quantity = 100, currentOwner = 2,
         committedBuyer = b, status = COMMITTED, createdAt = 0\<rparr>),
      events = [WasteBatchCreated 1 2 ''fly_ash'' 100, PurchaseCommitted 1 b]\<rparr>)"
  by (simp add: run_def call_by_def transact_create transact_commit constructor_def
      uint256_max_def)

lemma scenario_create:
  "run [call_by 1 (CreateWasteBatch ''fly_ash'' 100 2)] (constructor 1) =
     \<lparr>owner = 1, entered = False, nextBatchId = 2,
      wasteBatches = (\<lambda>_. zero_batch)(1 :=
        \<lparr>batchId = 1, category = ''fly_ash'', quantity = 100, currentOwner = 2,
         committedBuyer = 0, status = CREATED, createdAt = 0\<rparr>),
      events = [WasteBatchCreated 1 2 ''fly_ash'' 100]\<rparr>"
  by (simp add: run_def call_by_def transact_create constructor_def uint256_max_def)

section \<open>The properties\<close>

text \<open>Throughout, a reachable registry state is \<open>run ts (constructor d)\<close>: the storage
  after deployment by \<open>d\<close> and any sequence \<open>ts\<close> of calls. Concrete scenarios use
  the administrator 1, the seller 2 and the buyer 3.\<close>

subsection \<open>C1: buyers, and the order of the life cycle\<close>




subsection \<open>C2: the transfer completes the sale, and the batch is then final\<close>




subsection \<open>C3: one commitment per batch\<close>

text \<open>C3. In a reachable registry state, let batch \<open>bid\<close> exist with status \<open>CREATED\<close>
  and an owner other than \<open>B\<close>. Then \<open>commitToPurchase\<close> called by \<open>B\<close> succeeds;
  afterwards \<open>getWasteBatch\<close> shows the status \<open>COMMITTED\<close> and the buyer \<open>B\<close>; a
  second \<open>commitToPurchase\<close> on \<open>bid\<close>, by any caller \<open>C\<close>, fails with "Not available"
  (the spec's InvalidStateError) and the buyer is still \<open>B\<close> after it; and the same
  holds after any further calls.\<close>

theorem commitToPurchase_once:
  assumes s: "s = run ts (constructor d)"
    and b: "getWasteBatch bid s = Inr b"
    and st: "status b = CREATED"
    and own: "currentOwner b \<noteq> B"
    and s': "s' = snd (commitToPurchase B bid s)"
  shows "fst (commitToPurchase B bid s) = Inr ()
     \<and> (\<exists>b'. getWasteBatch bid s' = Inr b' \<and> status b' = COMMITTED \<and> committedBuyer b' = B)
     \<and> (\<forall>C now. fst (commitToPurchase C bid s') = Inl (Require ''Not available'')
           \<and> committedBuyer (wasteBatches (transact
                \<lparr>msg_sender = C, block_timestamp = now, called = CommitToPurchase bid\<rparr> s') bid) = B)
     \<and> (\<forall>C us. fst (commitToPurchase C bid (run us s')) = Inl (Require ''Not available'')
           \<and> committedBuyer (wasteBatches (run us s') bid) = B)"
proof -
  have ne: "\<not> entered s" unfolding s by (rule reachable_not_entered)
  have c: "consistent s" unfolding s by (rule consistent_reachable)
  from b have ex: "batchId (wasteBatches s bid) \<noteq> 0" and bb: "b = wasteBatches s bid"
    by (auto simp: getWasteBatch_def split: if_splits)
  from own have own': "B \<noteq> currentOwner b" by blast
  from ne ex bb st own' have 1: "fst (commitToPurchase B bid s) = Inr ()"
    by (simp add: commitToPurchase_free)
  from ne ex bb st own' have slot: "wasteBatches s' bid =
      (wasteBatches s bid)\<lparr>committedBuyer := B, status := COMMITTED\<rparr>"
    unfolding s' by (simp add: commitToPurchase_free)
  with ex have 2: "\<exists>b'. getWasteBatch bid s' = Inr b' \<and> status b' = COMMITTED \<and> committedBuyer b' = B"
    by (simp add: getWasteBatch_def)
  have "s' = transact \<lparr>msg_sender = B, block_timestamp = 0, called = CommitToPurchase bid\<rparr> s"
    unfolding s' using 1 by (rule commit_is_transact)
  with c have c': "consistent s'" by (simp add: consistent_transact)
  from slot ex have set': "batchId (wasteBatches s' bid) \<noteq> 0" "status (wasteBatches s' bid) \<noteq> CREATED"
    "committedBuyer (wasteBatches s' bid) = B" by simp_all
  have 4: "fst (commitToPurchase C bid (run us s')) = Inl (Require ''Not available'')
           \<and> committedBuyer (wasteBatches (run us s') bid) = B" for C us
  proof -
    from settled_run [OF c' set'(1,2), of us] set'(3)
    have "batchId (wasteBatches (run us s') bid) \<noteq> 0"
      "status (wasteBatches (run us s') bid) \<noteq> CREATED"
      "committedBuyer (wasteBatches (run us s') bid) = B" by simp_all
    moreover have "\<not> entered (run us s')"
      using consistent_run [OF c', of us] by (simp add: consistent_def)
    ultimately show ?thesis by (simp add: commitToPurchase_free)
  qed
  have 3: "fst (commitToPurchase C bid s') = Inl (Require ''Not available'')
           \<and> committedBuyer (wasteBatches (transact
                \<lparr>msg_sender = C, block_timestamp = now, called = CommitToPurchase bid\<rparr> s') bid) = B"
    for C now
    using 4 [of C "[]"] 4 [of C "[\<lparr>msg_sender = C, block_timestamp = now, called = CommitToPurchase bid\<rparr>]"]
    by (simp add: run_def)
  from 1 2 3 4 show ?thesis by blast
qed

text \<open>The buyer 3 commits to the fresh batch 1; the commitment that 4 tries next fails.\<close>

theorem commitToPurchase_once_witness:
  "getWasteBatch 1 (run [call_by 1 (CreateWasteBatch ''fly_ash'' 100 2)] (constructor 1)) =
      Inr \<lparr>batchId = 1, category = ''fly_ash'', quantity = 100, currentOwner = 2,
         committedBuyer = 0, status = CREATED, createdAt = 0\<rparr>
   \<and> fst (commitToPurchase 3 1 (run [call_by 1 (CreateWasteBatch ''fly_ash'' 100 2)] (constructor 1))) = Inr ()
   \<and> (\<exists>b'. getWasteBatch 1 (snd (commitToPurchase 3 1 (run [call_by 1 (CreateWasteBatch ''fly_ash'' 100 2)] (constructor 1)))) = Inr b'
          \<and> status b' = COMMITTED \<and> committedBuyer b' = 3)
   \<and> fst (commitToPurchase 4 1 (snd (commitToPurchase 3 1 (run [call_by 1 (CreateWasteBatch ''fly_ash'' 100 2)] (constructor 1)))))
        = Inl (Require ''Not available'')
   \<and> committedBuyer (wasteBatches (transact (call_by 4 (CommitToPurchase 1))
        (snd (commitToPurchase 3 1 (run [call_by 1 (CreateWasteBatch ''fly_ash'' 100 2)] (constructor 1))))) 1) = 3"
proof -
  let ?s = "run [call_by 1 (CreateWasteBatch ''fly_ash'' 100 2)] (constructor 1)"
  let ?b = "\<lparr>batchId = 1, category = ''fly_ash'', quantity = 100, currentOwner = 2,
         committedBuyer = 0, status = CREATED, createdAt = 0\<rparr>"
  have h: "getWasteBatch 1 ?s = Inr ?b"
    by (simp add: scenario_create getWasteBatch_def)
  have "status ?b = CREATED" "currentOwner ?b \<noteq> 3"
    by simp_all
  note th = commitToPurchase_once [OF refl h this refl]
  from th have 1: "fst (commitToPurchase 3 1 ?s) = Inr ()" by blast
  from th have 2: "\<exists>b'. getWasteBatch 1 (snd (commitToPurchase 3 1 ?s)) = Inr b'
          \<and> status b' = COMMITTED \<and> committedBuyer b' = 3" by blast
  from th have 3: "fst (commitToPurchase 4 1 (snd (commitToPurchase 3 1 ?s)))
        = Inl (Require ''Not available'')
     \<and> committedBuyer (wasteBatches (transact
          \<lparr>msg_sender = 4, block_timestamp = 0, called = CommitToPurchase 1\<rparr>
          (snd (commitToPurchase 3 1 ?s))) 1) = 3" by blast
  from h 1 2 3 show ?thesis by (simp only: call_by_def)
qed

subsection \<open>C4: ids are handed out in sequence\<close>

text \<open>C4. Whenever \<open>createWasteBatch\<close> succeeds on a reachable registry state, the id it
  returns is one more than the highest id handed out before (0 when none was, so the
  first successful call returns 1); the counter starts at 1 and the call leaves it
  exactly one higher, without wrapping.\<close>

theorem createWasteBatch_next_id:
  assumes ok: "createWasteBatch a now cat qty seller (run ts (constructor d)) = (Inr bid, s')"
  shows "unat bid = Suc (unat (highest_assigned (assigned_ids ts (constructor d))))
     \<and> (assigned_ids ts (constructor d) = [] \<longrightarrow> bid = 1)
     \<and> nextBatchId (constructor d) = 1
     \<and> unat (nextBatchId s') = Suc (unat (nextBatchId (run ts (constructor d))))"
proof -
  let ?s = "run ts (constructor d)"
  from ok have pre: "owner ?s = a" "qty \<noteq> 0" "seller \<noteq> 0" "nextBatchId ?s \<noteq> uint256_max"
    and bid: "bid = nextBatchId ?s"
    by (auto dest: createWasteBatch_Inr)
  have 1: "unat bid = Suc (unat (highest_assigned (assigned_ids ts (constructor d))))"
    using bid highest_assigned_reachable [of ts d] by simp
  have 2: "bid = 1" if "assigned_ids ts (constructor d) = []"
  proof -
    from that have "unat bid = 1" using 1 by (simp add: highest_assigned_def)
    then show ?thesis by (simp add: word_unat_eq_iff)
  qed
  have "s' = snd (createWasteBatch a now cat qty seller ?s)" using ok by simp
  then have "nextBatchId s' = nextBatchId ?s + 1"
    using pre by (simp add: createWasteBatch_ok)
  then have 3: "unat (nextBatchId s') = Suc (unat (nextBatchId ?s))"
    using pre(4) by (simp add: uint256_inc_unat)
  show ?thesis using 1 2 3 by (simp add: constructor_def)
qed

text \<open>The second creation returns 2, one more than the id 1 handed out before it.\<close>

theorem createWasteBatch_next_id_witness:
  "createWasteBatch 1 0 ''slag'' 1 2
       (run [call_by 1 (CreateWasteBatch ''fly_ash'' 100 2)] (constructor 1)) =
     (Inr 2, snd (createWasteBatch 1 0 ''slag'' 1 2
       (run [call_by 1 (CreateWasteBatch ''fly_ash'' 100 2)] (constructor 1))))
   \<and> assigned_ids [call_by 1 (CreateWasteBatch ''fly_ash'' 100 2)] (constructor 1) = [1]
   \<and> unat (2 :: uint256) =
       Suc (unat (highest_assigned
         (assigned_ids [call_by 1 (CreateWasteBatch ''fly_ash'' 100 2)] (constructor 1))))"
proof -
  let ?ts = "[call_by 1 (CreateWasteBatch ''fly_ash'' 100 2)]"
  have ok: "createWasteBatch 1 0 ''slag'' 1 2 (run ?ts (constructor 1)) =
     (Inr 2, snd (createWasteBatch 1 0 ''slag'' 1 2 (run ?ts (constructor 1))))"
    by (simp add: run_def call_by_def transact_create createWasteBatch_ok constructor_def
        uint256_max_def)
  have ids: "assigned_ids ?ts (constructor 1) = [1]"
    by (simp add: assigned_ids_single creates_def call_by_def constructor_def uint256_max_def
        del: assigned_ids.simps)
  from createWasteBatch_next_id [OF ok] ok ids show ?thesis
    by simp
qed

subsection \<open>C5: a transfer by someone who is not the owner\<close>

text \<open>C5, as the contract has it. \<open>transferWasteBatch\<close> checks the status before it
  checks the caller. In a reachable registry state, for an existing batch and a caller
  who is not its current owner, the call fails and the storage after the call is the
  storage before it (the mapping and the counter are untouched already where it stops):
  with "Not batch owner" (the spec's AuthorizationError) when the batch is \<open>COMMITTED\<close>,
  and with "Buyer not committed" (the spec's InvalidStateError) when it is not.\<close>

theorem transferWasteBatch_not_owner:
  assumes s: "s = run ts (constructor d)"
    and b: "getWasteBatch bid s = Inr b"
    and a: "a \<noteq> currentOwner b"
  shows "fst (transferWasteBatch a bid s) =
           Inl (Require (if status b = COMMITTED then ''Not batch owner'' else ''Buyer not committed''))
     \<and> transact \<lparr>msg_sender = a, block_timestamp = now, called = TransferWasteBatch bid\<rparr> s = s
     \<and> wasteBatches (snd (transferWasteBatch a bid s)) = wasteBatches s
     \<and> nextBatchId (snd (transferWasteBatch a bid s)) = nextBatchId s"
proof -
  have ne: "\<not> entered s" unfolding s by (rule reachable_not_entered)
  from b have ex: "batchId (wasteBatches s bid) \<noteq> 0" and bb: "b = wasteBatches s bid"
    by (auto simp: getWasteBatch_def split: if_splits)
  from ne ex bb a show ?thesis
    by (simp add: transferWasteBatch_free transact_transfer)
qed

text \<open>C5 as stated fails: batch 1 exists, is still \<open>CREATED\<close> and belongs to 2; the
  transfer that 3 attempts fails on the status, not on the ownership.\<close>

theorem transferWasteBatch_not_owner_counterexample:
  "getWasteBatch 1 (run [call_by 1 (CreateWasteBatch ''fly_ash'' 100 2)] (constructor 1)) =
      Inr \<lparr>batchId = 1, category = ''fly_ash'', quantity = 100, currentOwner = 2,
         committedBuyer = 0, status = CREATED, createdAt = 0\<rparr>
   \<and> fst (transferWasteBatch 3 1 (run [call_by 1 (CreateWasteBatch ''fly_ash'' 100 2)] (constructor 1)))
        = Inl (Require ''Buyer not committed'')
   \<and> fst (transferWasteBatch 3 1 (run [call_by 1 (CreateWasteBatch ''fly_ash'' 100 2)] (constructor 1)))
        \<noteq> Inl (Require ''Not batch owner'')"
  by (simp add: scenario_create getWasteBatch_def transferWasteBatch_free)

text \<open>Once batch 1 is committed, the transfer that the buyer 3 attempts fails on the
  ownership.\<close>

theorem transferWasteBatch_not_owner_witness:
  "getWasteBatch 1 (run [call_by 1 (CreateWasteBatch ''fly_ash'' 100 2), call_by 3 (CommitToPurchase 1)] (constructor 1)) =
      Inr \<lparr>batchId = 1, category = ''fly_ash'', quantity = 100, currentOwner = 2,
         committedBuyer = 3, status = COMMITTED, createdAt = 0\<rparr>
   \<and> fst (transferWasteBatch 3 1 (run [call_by 1 (CreateWasteBatch ''fly_ash'' 100 2), call_by 3 (CommitToPurchase 1)] (constructor 1)))
        = Inl (Require ''Not batch owner'')
   \<and> transact (call_by 3 (TransferWasteBatch 1)) (run [call_by 1 (CreateWasteBatch ''fly_ash'' 100 2), call_by 3 (CommitToPurchase 1)] (constructor 1))
        = run [call_by 1 (CreateWasteBatch ''fly_ash'' 100 2), call_by 3 (CommitToPurchase 1)] (constructor 1)"
proof -
  let ?s = "run [call_by 1 (CreateWasteBatch ''fly_ash'' 100 2), call_by 3 (CommitToPurchase 1)] (constructor 1)"
  let ?b = "\<lparr>batchId = 1, category = ''fly_ash'', quantity = 100, currentOwner = 2,
         committedBuyer = 3, status = COMMITTED, createdAt = 0\<rparr>"
  have h: "getWasteBatch 1 ?s = Inr ?b"
    by (simp add: scenario_commit getWasteBatch_def)
  have "3 \<noteq> currentOwner ?b" by simp
  note th = transferWasteBatch_not_owner [OF refl h this, of 0]
  from h th show ?thesis by (simp add: call_by_def)
qed

subsection \<open>C6: what a creation rejects\<close>





subsection \<open>C7: a failed call changes nothing\<close>

text \<open>C7. For every call and every storage on which the call fails, the storage after
  the call is the storage before it. The platform discards what a reverted call wrote;
  and unless the failure is the arithmetic panic of the counter (which comes after the
  new batch was written), the call had written nothing to the batch mapping, the counter
  or the event log when it stopped: every check comes before the first write.\<close>

theorem failed_call_changes_nothing:
  assumes "fst (execute t s) = Inl e"
  shows "transact t s = s
     \<and> (e \<noteq> Panic 17 \<longrightarrow>
          wasteBatches (snd (execute t s)) = wasteBatches s
        \<and> nextBatchId (snd (execute t s)) = nextBatchId s
        \<and> events (snd (execute t s)) = events s)"
proof -
  from assms have "transact t s = s"
    by (cases "execute t s") (simp add: transact_def)
  with execute_failure_point [OF assms] show ?thesis by simp
qed

text \<open>A commitment to the batch 7, which does not exist.\<close>

theorem failed_call_changes_nothing_witness:
  "fst (execute (call_by 3 (CommitToPurchase 7)) (constructor 1))
      = Inl (Require ''Batch does not exist'')
   \<and> transact (call_by 3 (CommitToPurchase 7)) (constructor 1) = constructor 1
   \<and> wasteBatches (snd (execute (call_by 3 (CommitToPurchase 7)) (constructor 1)))
      = wasteBatches (constructor 1)
   \<and> nextBatchId (snd (execute (call_by 3 (CommitToPurchase 7)) (constructor 1))) = 1"
proof -
  have h: "fst (execute (call_by 3 (CommitToPurchase 7)) (constructor 1))
      = Inl (Require ''Batch does not exist'')"
    by (simp add: execute_def call_by_def commitToPurchase_free constructor_def zero_batch_def)
  from failed_call_changes_nothing [OF h] h show ?thesis
    by (simp add: constructor_def)
qed

subsection \<open>C8: id 0 is never found, and reading changes nothing\<close>

text \<open>C8. In every reachable registry state \<open>getWasteBatch 0\<close> fails with the reason
  "Batch not found" (the NotFoundError of the spec), however many batches have been
  created; and a \<open>getWasteBatch\<close> call, for any argument and on any storage, leaves the
  storage as it was, both where execution stops and after the call.\<close>

theorem getWasteBatch_zero_not_found:
  "getWasteBatch 0 (run ts (constructor d)) = Inl (Require ''Batch not found'')
   \<and> snd (execute \<lparr>msg_sender = a, block_timestamp = now, called = GetWasteBatch bid\<rparr> s) = s
   \<and> transact \<lparr>msg_sender = a, block_timestamp = now, called = GetWasteBatch bid\<rparr> s = s"
proof -
  have "\<not> allocated (run ts (constructor d)) 0"
    by (simp add: allocated_def)
  then have "batchId (wasteBatches (run ts (constructor d)) 0) = 0"
    using consistent_exists [OF consistent_reachable, of ts d 0] by simp
  then show ?thesis
    by (simp add: getWasteBatch_def transact_get execute_def split: sum.splits)
qed

text \<open>After one creation, id 0 is still not found while id 1 is.\<close>

theorem getWasteBatch_zero_not_found_witness:
  "getWasteBatch 0 (run [call_by 1 (CreateWasteBatch ''fly_ash'' 100 2)] (constructor 1))
     = Inl (Require ''Batch not found'')
   \<and> getWasteBatch 1 (run [call_by 1 (CreateWasteBatch ''fly_ash'' 100 2)] (constructor 1))
     = Inr \<lparr>batchId = 1, category = ''fly_ash'', quantity = 100, currentOwner = 2,
            committedBuyer = 0, status = CREATED, createdAt = 0\<rparr>"
  using getWasteBatch_zero_not_found [of "[call_by 1 (CreateWasteBatch ''fly_ash'' 100 2)]" 1]
  by (simp add: run_def call_by_def transact_create constructor_def getWasteBatch_def
      uint256_max_def)

subsection \<open>C9: a nested call of a guarded function is rejected\<close>

text \<open>C9. Both \<open>commitToPurchase\<close> and \<open>transferWasteBatch\<close> run under the lock. On
  any storage whose in-flight flag is held, each of them fails at once with
  \<open>ReentrancyGuardReentrantCall\<close> and has written nothing, whatever the call in flight
  has written to the batch mapping and the event log so far. The flag is taken before
  the body of a guarded function runs and the body does not release it; it is released
  exactly when the call returns normally.\<close>

theorem nested_call_rejected:
  "(entered s \<longrightarrow>
      commitToPurchase a bid s = (Inl ReentrancyGuardReentrantCall, s)
    \<and> transferWasteBatch a bid s = (Inl ReentrancyGuardReentrantCall, s))
   \<and> (entered s \<longrightarrow>
      (\<forall>written logged.
         fst (commitToPurchase a bid (s\<lparr>wasteBatches := written, events := logged\<rparr>))
           = Inl ReentrancyGuardReentrantCall
       \<and> fst (transferWasteBatch a bid (s\<lparr>wasteBatches := written, events := logged\<rparr>))
           = Inl ReentrancyGuardReentrantCall))
   \<and> (\<not> entered s \<longrightarrow>
      fst (nonReentrantBefore s) = Inr () \<and> entered (snd (nonReentrantBefore s)))
   \<and> (entered s \<longrightarrow>
      entered (snd (commitToPurchase_body a bid s))
    \<and> entered (snd (transferWasteBatch_body a bid s)))
   \<and> (\<not> entered s \<longrightarrow>
      entered (snd (commitToPurchase a bid s)) = (fst (commitToPurchase a bid s) \<noteq> Inr ())
    \<and> entered (snd (transferWasteBatch a bid s)) = (fst (transferWasteBatch a bid s) \<noteq> Inr ()))"
proof (intro conjI impI allI)
  assume "entered s"
  then show "commitToPurchase a bid s = (Inl ReentrancyGuardReentrantCall, s)"
    and "transferWasteBatch a bid s = (Inl ReentrancyGuardReentrantCall, s)"
    by (simp_all add: commitToPurchase_def transferWasteBatch_def nonReentrant_entered)
next
  fix written logged
  assume "entered s"
  then have "entered (s\<lparr>wasteBatches := written, events := logged\<rparr>)" by simp
  then show "fst (commitToPurchase a bid (s\<lparr>wasteBatches := written, events := logged\<rparr>))
           = Inl ReentrancyGuardReentrantCall"
    and "fst (transferWasteBatch a bid (s\<lparr>wasteBatches := written, events := logged\<rparr>))
           = Inl ReentrancyGuardReentrantCall"
    by (simp_all only: commitToPurchase_def transferWasteBatch_def nonReentrant_entered fst_conv)
next
  assume "\<not> entered s"
  then show "fst (nonReentrantBefore s) = Inr ()" and "entered (snd (nonReentrantBefore s))"
    by (simp_all add: nonReentrantBefore_def)
next
  assume "entered s"
  then show "entered (snd (commitToPurchase_body a bid s))"
    and "entered (snd (transferWasteBatch_body a bid s))"
    by (simp_all add: commitToPurchase_body_def transferWasteBatch_body_def Let_def)
next
  assume "\<not> entered s"
  then show "entered (snd (commitToPurchase a bid s)) = (fst (commitToPurchase a bid s) \<noteq> Inr ())"
    and "entered (snd (transferWasteBatch a bid s)) = (fst (transferWasteBatch a bid s) \<noteq> Inr ())"
    by (simp_all add: commitToPurchase_free transferWasteBatch_free)
qed

text \<open>The buyer 3 can commit to batch 1; the same call made while a guarded call is in
  flight is rejected.\<close>

theorem nested_call_rejected_witness:
  "\<not> entered (run [call_by 1 (CreateWasteBatch ''fly_ash'' 100 2)] (constructor 1))
   \<and> fst (commitToPurchase 3 1
        (run [call_by 1 (CreateWasteBatch ''fly_ash'' 100 2)] (constructor 1))) = Inr ()
   \<and> entered (snd (nonReentrantBefore
        (run [call_by 1 (CreateWasteBatch ''fly_ash'' 100 2)] (constructor 1))))
   \<and> fst (commitToPurchase 3 1 (snd (nonReentrantBefore
        (run [call_by 1 (CreateWasteBatch ''fly_ash'' 100 2)] (constructor 1)))))
        = Inl ReentrancyGuardReentrantCall"
proof -
  let ?s = "run [call_by 1 (CreateWasteBatch ''fly_ash'' 100 2)] (constructor 1)"
  have ne: "\<not> entered ?s" by (simp add: scenario_create)
  have ok: "fst (commitToPurchase 3 1 ?s) = Inr ()"
    by (simp add: scenario_create commitToPurchase_free)
  from ne have held: "entered (snd (nonReentrantBefore ?s))"
    using nested_call_rejected [of ?s 3 1] by blast
  then have "fst (commitToPurchase 3 1 (snd (nonReentrantBefore ?s)))
        = Inl ReentrancyGuardReentrantCall"
    using nested_call_rejected [of "snd (nonReentrantBefore ?s)" 3 1] by simp
  with ne ok held show ?thesis by simp
qed

subsection \<open>C10: the stored id decides existence\<close>

text \<open>C10. In every reachable registry state the counter is at least 1; the slot of
  every id holds that id in its \<open>batchId\<close> field when the id is allocated (at least 1 and
  below the counter) and 0 otherwise; the allocated ids are exactly the ids that
  successful creations returned; so the test "stored \<open>batchId\<close> is not 0" decides
  allocation, and \<open>getWasteBatch\<close>, \<open>commitToPurchase\<close> and \<open>transferWasteBatch\<close>
  report a missing batch exactly for the ids that are not allocated.\<close>

theorem storage_invariant:
  "1 \<le> nextBatchId (run ts (constructor d))
   \<and> (\<forall>bid. batchId (wasteBatches (run ts (constructor d)) bid) =
         (if 1 \<le> bid \<and> bid < nextBatchId (run ts (constructor d)) then bid else 0))
   \<and> (\<forall>bid. allocated (run ts (constructor d)) bid = (bid \<in> set (assigned_ids ts (constructor d))))
   \<and> (\<forall>bid. (batchId (wasteBatches (run ts (constructor d)) bid) \<noteq> 0) =
         allocated (run ts (constructor d)) bid)
   \<and> (\<forall>bid. (getWasteBatch bid (run ts (constructor d)) = Inl (Require ''Batch not found'')) =
         (\<not> allocated (run ts (constructor d)) bid))
   \<and> (\<forall>bid. (fst (commitToPurchase a bid (run ts (constructor d))) = Inl (Require ''Batch does not exist'')) =
         (\<not> allocated (run ts (constructor d)) bid))
   \<and> (\<forall>bid. (fst (transferWasteBatch a bid (run ts (constructor d))) = Inl (Require ''Batch does not exist'')) =
         (\<not> allocated (run ts (constructor d)) bid))"
proof -
  let ?s = "run ts (constructor d)"
  have c: "consistent ?s" by (rule consistent_reachable)
  then have all: "\<And>i. if allocated ?s i then batchId (wasteBatches ?s i) = i
            else wasteBatches ?s i = zero_batch"
    by (simp add: consistent_def)
  have ne: "\<not> entered ?s" by (rule reachable_not_entered)
  have 1: "1 \<le> nextBatchId ?s" using c by (simp add: consistent_def)
  have 2: "batchId (wasteBatches ?s bid) = (if 1 \<le> bid \<and> bid < nextBatchId ?s then bid else 0)" for bid
    using all [of bid] by (auto simp: allocated_def zero_batch_def)
  have 3: "allocated ?s bid = (bid \<in> set (assigned_ids ts (constructor d)))" for bid
    unfolding assigned_ids_reachable set_ids_upto by (simp add: allocated_def)
  have 4: "(batchId (wasteBatches ?s bid) \<noteq> 0) = allocated ?s bid" for bid
    by (rule consistent_exists [OF c])
  have 5: "(getWasteBatch bid ?s = Inl (Require ''Batch not found'')) = (\<not> allocated ?s bid)" for bid
    using 4 [of bid] by (simp add: getWasteBatch_def)
  have 6: "(fst (commitToPurchase a bid ?s) = Inl (Require ''Batch does not exist'')) = (\<not> allocated ?s bid)" for bid
    using 4 [of bid] ne by (auto simp: commitToPurchase_free)
  have 7: "(fst (transferWasteBatch a bid ?s) = Inl (Require ''Batch does not exist'')) = (\<not> allocated ?s bid)" for bid
    using 4 [of bid] ne by (auto simp: transferWasteBatch_free)
  show ?thesis using 1 2 3 4 5 6 7 by (intro conjI allI)
qed

text \<open>After one creation the counter is 2, id 1 is allocated and id 2 is not.\<close>

theorem storage_invariant_witness:
  "nextBatchId (run [call_by 1 (CreateWasteBatch ''fly_ash'' 100 2)] (constructor 1)) = 2
   \<and> batchId (wasteBatches (run [call_by 1 (CreateWasteBatch ''fly_ash'' 100 2)] (constructor 1)) 1) = 1
   \<and> batchId (wasteBatches (run [call_by 1 (CreateWasteBatch ''fly_ash'' 100 2)] (constructor 1)) 2) = 0
   \<and> allocated (run [call_by 1 (CreateWasteBatch ''fly_ash'' 100 2)] (constructor 1)) 1
   \<and> \<not> allocated (run [call_by 1 (CreateWasteBatch ''fly_ash'' 100 2)] (constructor 1)) 2
   \<and> assigned_ids [call_by 1 (CreateWasteBatch ''fly_ash'' 100 2)] (constructor 1) = [1]"
  using storage_invariant [of "[call_by 1 (CreateWasteBatch ''fly_ash'' 100 2)]" 1 3]
  by (simp add: run_def call_by_def transact_create constructor_def uint256_max_def
      allocated_def assigned_ids_single creates_def zero_batch_def del: assigned_ids.simps)


end
